theory Spec2Isabelle
  imports Main "HOL-Library.AList"
begin

section \<open>The Python objects that \<open>ChainMap\<close> works on\<close>

text \<open>
  A \<open>ChainMap\<close> keeps a list of references to mapping objects and calls their methods:
  \<open>mapping[key]\<close>, \<open>key in m\<close>, \<open>self.maps[0].popitem()\<close> and the others dispatch on the
  class of the layer, and the writes change the layer in place. Two positions of the
  list, or two chain maps, may refer to the same object. The model therefore has an
  explicit store and layers of more than one class.

  The store (heap) is the list of all dict objects allocated so far; an address is an
  index into it, and allocating a dict appends it, so that the new address is the heap's
  former length and differs from every address in use.

  A dict object is the list of its entries in insertion order together with what its
  class does on a lookup of an absent key: \<open>missing_hook = None\<close> is a plain \<open>dict\<close>,
  which raises \<open>KeyError(key)\<close>; \<open>missing_hook = Some v\<close> is an instance of a subclass of
  \<open>dict\<close> that defines \<open>__missing__\<close> to return \<open>v\<close> and nothing else
  (\<open>class D(dict): def __missing__(self, key): return v\<close>; \<open>collections.Counter\<close> looks a
  key up in this way, with \<open>v = 0\<close>).

  The layers of the model are these dicts and chain maps themselves. Other mapping
  classes, such as a \<open>defaultdict\<close>, whose lookup of an absent key also stores the
  default, are outside it; a theorem that depends on the class of a layer names the
  layers it is about.
\<close>

type_synonym addr = nat

datatype ('k, 'v) dictobj =
  DictObj (missing_hook: "'v option") (entries: "('k \<times> 'v) list")

type_synonym ('k, 'v) heap = "('k, 'v) dictobj list"

text \<open>
  The exceptions the code can raise. Four of them are \<open>KeyError\<close> instances that differ
  in their argument:
  \<^item> \<open>KeyError k\<close> is \<open>KeyError(key)\<close>, raised by a dict and by \<open>__missing__\<close>;
  \<^item> \<open>KeyError_not_in_first k\<close> is
    \<open>KeyError('Key not found in the first mapping: {!r}'.format(key))\<close>;
  \<^item> \<open>KeyError_no_keys\<close> is \<open>KeyError("No keys found in the first mapping.")\<close>;
  \<^item> \<open>KeyError_popitem_empty\<close> is the \<open>KeyError\<close> of \<open>dict.popitem\<close> on an empty dict.

  \<open>IndexError\<close> is what \<open>self.maps[0]\<close> raises on an empty list.
\<close>

datatype 'k error =
    KeyError 'k
  | KeyError_not_in_first 'k
  | KeyError_no_keys
  | KeyError_popitem_empty
  | IndexError

text \<open>What an \<open>except KeyError\<close> clause catches.\<close>

fun is_KeyError :: "'k error \<Rightarrow> bool" where
  "is_KeyError IndexError = False"
| "is_KeyError _ = True"

subsection \<open>Operations of \<open>dict\<close>\<close>

definition dict_contains :: "('k, 'v) dictobj \<Rightarrow> 'k \<Rightarrow> bool" where
  "dict_contains d k = (map_of (entries d) k \<noteq> None)"

definition dict_getitem :: "('k, 'v) dictobj \<Rightarrow> 'k \<Rightarrow> 'k error + 'v" where
  "dict_getitem d k =
     (case map_of (entries d) k of
        Some v \<Rightarrow> Inr v
      | None \<Rightarrow> (case missing_hook d of None \<Rightarrow> Inl (KeyError k) | Some v \<Rightarrow> Inr v))"

definition dict_setitem :: "('k, 'v) dictobj \<Rightarrow> 'k \<Rightarrow> 'v \<Rightarrow> ('k, 'v) dictobj" where
  "dict_setitem d k v = DictObj (missing_hook d) (AList.update k v (entries d))"

definition dict_delitem :: "('k, 'v) dictobj \<Rightarrow> 'k \<Rightarrow> 'k error + ('k, 'v) dictobj" where
  "dict_delitem d k =
     (if dict_contains d k then Inr (DictObj (missing_hook d) (AList.delete k (entries d)))
      else Inl (KeyError k))"

text \<open>
  \<open>dict.popitem()\<close> removes and returns an entry of the dict's own choosing. The choice is
  the parameter \<open>n\<close>: the entry at position \<open>n mod len(d)\<close> is taken, so every entry can
  be the one chosen.
\<close>

definition dict_popitem ::
  "nat \<Rightarrow> ('k, 'v) dictobj \<Rightarrow> 'k error + (('k \<times> 'v) \<times> ('k, 'v) dictobj)" where
  "dict_popitem n d =
     (if entries d = [] then Inl KeyError_popitem_empty
      else let i = n mod length (entries d)
           in Inr (entries d ! i,
                   DictObj (missing_hook d) (take i (entries d) @ drop (Suc i) (entries d))))"

definition dict_clear :: "('k, 'v) dictobj \<Rightarrow> ('k, 'v) dictobj" where
  "dict_clear d = DictObj (missing_hook d) []"

definition dict_keys :: "('k, 'v) dictobj \<Rightarrow> 'k list" where
  "dict_keys d = map fst (entries d)"

text \<open>
  \<open>set().union(*others)\<close>: a Python set is a list without duplicates; every element of
  every iterable is added unless it is already there.
\<close>

definition set_union :: "'k list \<Rightarrow> 'k list list \<Rightarrow> 'k list" where
  "set_union s others = fold (\<lambda>it acc. fold List.insert it acc) others s"

section \<open>\<open>ChainMap\<close> and \<open>DeepChainMap\<close>\<close>

text \<open>
  A mapping object that can serve as a layer is a dict of the heap or a chain map. A chain
  map has one attribute, the list \<open>maps\<close> of its layers, and a class, which
  \<open>self.__class__\<close> reads when a method builds a new instance. No method of the class
  assigns to \<open>maps\<close> or changes that list, so a chain map used as a layer is given by its
  class and its layers; the dicts at the leaves are the only objects that change.
\<close>

datatype variant = ChainMap | DeepChainMap

datatype mapping = DictRef addr | ChainRef variant "mapping list"

record chainmap =
  cls :: variant
  maps_attr :: "mapping list"

text \<open>The instance seen as a mapping object, as when it is passed on as a layer.\<close>

definition as_mapping :: "chainmap \<Rightarrow> mapping" where
  "as_mapping self = ChainRef (cls self) (maps_attr self)"

text \<open>The dicts a mapping object consists of.\<close>

fun mapping_dicts :: "mapping \<Rightarrow> addr set" where
  "mapping_dicts (DictRef a) = {a}"
| "mapping_dicts (ChainRef c ms) = (\<Union>m\<in>set ms. mapping_dicts m)"

text \<open>The keys of a mapping object: those of its dicts.\<close>

fun mapping_keys :: "('k, 'v) heap \<Rightarrow> mapping \<Rightarrow> 'k set" where
  "mapping_keys h (DictRef a) = set (dict_keys (h ! a))"
| "mapping_keys h (ChainRef c ms) = (\<Union>m\<in>set ms. mapping_keys h m)"

text \<open>
  Every reference points to an allocated dict, and every chain map used as a layer has
  a layer, as every chain map that the constructor builds has.
\<close>

fun mapping_valid :: "('k, 'v) heap \<Rightarrow> mapping \<Rightarrow> bool" where
  "mapping_valid h (DictRef a) = (a < length h)"
| "mapping_valid h (ChainRef c ms) = (ms \<noteq> [] \<and> list_all (mapping_valid h) ms)"

definition valid_refs :: "('k, 'v) heap \<Rightarrow> chainmap \<Rightarrow> bool" where
  "valid_refs h self = list_all (mapping_valid h) (maps_attr self)"

text \<open>
  \<open>__init__(self, *maps)\<close>: \<open>self.maps = list(maps) or [{}]\<close>. The empty dict is
  allocated only when no map is given.
\<close>

definition init :: "variant \<Rightarrow> ('k, 'v) heap \<Rightarrow> mapping list \<Rightarrow> ('k, 'v) heap \<times> chainmap" where
  "init c h ms =
     (if ms = [] then (h @ [DictObj None []], \<lparr>cls = c, maps_attr = [DictRef (length h)]\<rparr>)
      else (h, \<lparr>cls = c, maps_attr = ms\<rparr>))"

definition missing :: "'k \<Rightarrow> 'k error + 'v" where
  "missing key = Inl (KeyError key)"

text \<open>
  \<open>mapping[key]\<close>. On a dict it is the dict's lookup. On a chain map it is
  \<open>__getitem__\<close>: the loop over \<open>self.maps\<close> returns at the first map whose lookup does
  not raise \<open>KeyError\<close>; after the loop comes \<open>self.__missing__(key)\<close>.
\<close>

fun mapping_getitem :: "('k, 'v) heap \<Rightarrow> mapping \<Rightarrow> 'k \<Rightarrow> 'k error + 'v"
  and getitem_loop :: "('k, 'v) heap \<Rightarrow> mapping list \<Rightarrow> 'k \<Rightarrow> 'k error + 'v" where
  "mapping_getitem h (DictRef a) key = dict_getitem (h ! a) key"
| "mapping_getitem h (ChainRef c ms) key = getitem_loop h ms key"
| "getitem_loop h [] key = missing key"
| "getitem_loop h (m # ms) key =
     (case mapping_getitem h m key of
        Inr v \<Rightarrow> Inr v
      | Inl e \<Rightarrow> if is_KeyError e then getitem_loop h ms key else Inl e)"

definition getitem :: "('k, 'v) heap \<Rightarrow> chainmap \<Rightarrow> 'k \<Rightarrow> 'k error + 'v" where
  "getitem h self key = mapping_getitem h (as_mapping self) key"

text \<open>
  \<open>key in m\<close>. On a chain map it is \<open>__contains__\<close>:
  \<open>any(key in m for m in self.maps)\<close>.
\<close>

fun mapping_contains :: "('k, 'v) heap \<Rightarrow> mapping \<Rightarrow> 'k \<Rightarrow> bool" where
  "mapping_contains h (DictRef a) key = dict_contains (h ! a) key"
| "mapping_contains h (ChainRef c ms) key = list_ex (\<lambda>m. mapping_contains h m key) ms"

definition contains :: "('k, 'v) heap \<Rightarrow> chainmap \<Rightarrow> 'k \<Rightarrow> bool" where
  "contains h self key = mapping_contains h (as_mapping self) key"

text \<open>\<open>get\<close>: \<open>self[key] if key in self else default\<close>.\<close>

definition get :: "('k, 'v) heap \<Rightarrow> chainmap \<Rightarrow> 'k \<Rightarrow> 'v \<Rightarrow> 'k error + 'v" where
  "get h self key dflt = (if contains h self key then getitem h self key else Inr dflt)"

text \<open>
  \<open>iter(m)\<close>, as the list of the keys it yields. On a dict these are its keys; on a chain
  map it is \<open>__iter__\<close>: \<open>iter(set().union(*self.maps))\<close>.
\<close>

fun mapping_iter :: "('k, 'v) heap \<Rightarrow> mapping \<Rightarrow> 'k list" where
  "mapping_iter h (DictRef a) = dict_keys (h ! a)"
| "mapping_iter h (ChainRef c ms) = set_union [] (map (mapping_iter h) ms)"

text \<open>\<open>__len__\<close>: \<open>len(set().union(*self.maps))\<close>.\<close>

definition len :: "('k, 'v) heap \<Rightarrow> chainmap \<Rightarrow> nat" where
  "len h self = length (set_union [] (map (mapping_iter h) (maps_attr self)))"

text \<open>
  \<open>new_child(self, m=None)\<close>: a missing \<open>m\<close> is a newly allocated empty dict; the result
  is \<open>self.__class__(m, *self.maps[1:])\<close>.
\<close>

definition new_child ::
  "('k, 'v) heap \<Rightarrow> chainmap \<Rightarrow> mapping option \<Rightarrow> ('k, 'v) heap \<times> chainmap" where
  "new_child h self m =
     (case m of
        None \<Rightarrow>
          init (cls self) (h @ [DictObj None []]) (DictRef (length h) # tl (maps_attr self))
      | Some r \<Rightarrow> init (cls self) h (r # tl (maps_attr self)))"

text \<open>\<open>parents\<close>: \<open>self.__class__(*self.maps[1:])\<close>.\<close>

definition parents :: "('k, 'v) heap \<Rightarrow> chainmap \<Rightarrow> ('k, 'v) heap \<times> chainmap" where
  "parents h self = init (cls self) h (tl (maps_attr self))"

text \<open>
  The methods that change a dict return the new heap, or the exception. An exception
  leaves the heap as it was: each of them is raised before anything is written.
\<close>

text \<open>
  \<open>mapping[key] = value\<close>. On a \<open>ChainMap\<close> it is \<open>self.maps[0][key] = value\<close>. On a
  \<open>DeepChainMap\<close> the loop writes into the first map that has the key and returns
  (\<open>Some\<close> of the outcome); when the loop ends without having returned (\<open>None\<close>), the key
  is written into \<open>self.maps[0]\<close>.
\<close>

fun mapping_setitem ::
    "('k, 'v) heap \<Rightarrow> mapping \<Rightarrow> 'k \<Rightarrow> 'v \<Rightarrow> 'k error + ('k, 'v) heap"
  and DeepChainMap_setitem_loop ::
    "('k, 'v) heap \<Rightarrow> mapping list \<Rightarrow> 'k \<Rightarrow> 'v \<Rightarrow> ('k error + ('k, 'v) heap) option" where
  "mapping_setitem h (DictRef a) key v = Inr (h[a := dict_setitem (h ! a) key v])"
| "mapping_setitem h (ChainRef ChainMap []) key v = Inl IndexError"
| "mapping_setitem h (ChainRef ChainMap (m # ms)) key v = mapping_setitem h m key v"
| "mapping_setitem h (ChainRef DeepChainMap []) key v = Inl IndexError"
| "mapping_setitem h (ChainRef DeepChainMap (m # ms)) key v =
     (case DeepChainMap_setitem_loop h (m # ms) key v of
        Some r \<Rightarrow> r
      | None \<Rightarrow> mapping_setitem h m key v)"
| "DeepChainMap_setitem_loop h [] key v = None"
| "DeepChainMap_setitem_loop h (m # ms) key v =
     (if mapping_contains h m key then Some (mapping_setitem h m key v)
      else DeepChainMap_setitem_loop h ms key v)"

definition setitem ::
  "('k, 'v) heap \<Rightarrow> chainmap \<Rightarrow> 'k \<Rightarrow> 'v \<Rightarrow> 'k error + ('k, 'v) heap" where
  "setitem h self key v = mapping_setitem h (as_mapping self) key v"

text \<open>
  \<open>del mapping[key]\<close>. On a \<open>ChainMap\<close> it is \<open>del self.maps[0][key]\<close>, a \<open>KeyError\<close> of
  which is replaced by the one that names the first mapping. On a \<open>DeepChainMap\<close> the
  loop deletes the key from the first map that has it and returns; when the loop ends
  without having returned, \<open>KeyError(key)\<close> is raised.
\<close>

fun mapping_delitem :: "('k, 'v) heap \<Rightarrow> mapping \<Rightarrow> 'k \<Rightarrow> 'k error + ('k, 'v) heap"
  and DeepChainMap_delitem_loop ::
    "('k, 'v) heap \<Rightarrow> mapping list \<Rightarrow> 'k \<Rightarrow> ('k error + ('k, 'v) heap) option" where
  "mapping_delitem h (DictRef a) key =
     (case dict_delitem (h ! a) key of Inl e \<Rightarrow> Inl e | Inr d \<Rightarrow> Inr (h[a := d]))"
| "mapping_delitem h (ChainRef ChainMap []) key = Inl IndexError"
| "mapping_delitem h (ChainRef ChainMap (m # ms)) key =
     (case mapping_delitem h m key of
        Inl e \<Rightarrow> if is_KeyError e then Inl (KeyError_not_in_first key) else Inl e
      | Inr h' \<Rightarrow> Inr h')"
| "mapping_delitem h (ChainRef DeepChainMap ms) key =
     (case DeepChainMap_delitem_loop h ms key of
        Some r \<Rightarrow> r
      | None \<Rightarrow> Inl (KeyError key))"
| "DeepChainMap_delitem_loop h [] key = None"
| "DeepChainMap_delitem_loop h (m # ms) key =
     (if mapping_contains h m key then Some (mapping_delitem h m key)
      else DeepChainMap_delitem_loop h ms key)"

definition delitem :: "('k, 'v) heap \<Rightarrow> chainmap \<Rightarrow> 'k \<Rightarrow> 'k error + ('k, 'v) heap" where
  "delitem h self key = mapping_delitem h (as_mapping self) key"

text \<open>
  \<open>m.popitem()\<close>. On a chain map it is \<open>self.maps[0].popitem()\<close>, with a \<open>KeyError\<close>
  replaced by the one that says that the first mapping has no keys.
\<close>

fun mapping_popitem ::
  "nat \<Rightarrow> ('k, 'v) heap \<Rightarrow> mapping \<Rightarrow> 'k error + (('k \<times> 'v) \<times> ('k, 'v) heap)" where
  "mapping_popitem n h (DictRef a) =
     (case dict_popitem n (h ! a) of
        Inl e \<Rightarrow> Inl e
      | Inr (kv, d) \<Rightarrow> Inr (kv, h[a := d]))"
| "mapping_popitem n h (ChainRef c []) = Inl IndexError"
| "mapping_popitem n h (ChainRef c (m # ms)) =
     (case mapping_popitem n h m of
        Inl e \<Rightarrow> if is_KeyError e then Inl KeyError_no_keys else Inl e
      | Inr r \<Rightarrow> Inr r)"

definition popitem ::
  "nat \<Rightarrow> ('k, 'v) heap \<Rightarrow> chainmap \<Rightarrow> 'k error + (('k \<times> 'v) \<times> ('k, 'v) heap)" where
  "popitem n h self = mapping_popitem n h (as_mapping self)"

text \<open>\<open>m.clear()\<close>. On a chain map it is \<open>self.maps[0].clear()\<close>.\<close>

fun mapping_clear :: "('k, 'v) heap \<Rightarrow> mapping \<Rightarrow> 'k error + ('k, 'v) heap" where
  "mapping_clear h (DictRef a) = Inr (h[a := dict_clear (h ! a)])"
| "mapping_clear h (ChainRef c []) = Inl IndexError"
| "mapping_clear h (ChainRef c (m # ms)) = mapping_clear h m"

definition clear :: "('k, 'v) heap \<Rightarrow> chainmap \<Rightarrow> 'k error + ('k, 'v) heap" where
  "clear h self = mapping_clear h (as_mapping self)"

text \<open>
  A layer's lookup of a key agrees with its containment test: it returns a value when
  the layer contains the key and raises \<open>KeyError\<close> when it does not.
\<close>

definition lookup_agrees :: "('k, 'v) heap \<Rightarrow> mapping \<Rightarrow> 'k \<Rightarrow> bool" where
  "lookup_agrees h m k =
     (case mapping_getitem h m k of
        Inr v \<Rightarrow> mapping_contains h m k
      | Inl e \<Rightarrow> is_KeyError e \<and> \<not> mapping_contains h m k)"

section \<open>Lookup\<close>

text \<open>A lookup raises nothing but \<open>KeyError(key)\<close>.\<close>

lemma mapping_getitem_error:
  "mapping_getitem h r k = Inl e \<Longrightarrow> e = KeyError k"
  "getitem_loop h ms k = Inl e \<Longrightarrow> e = KeyError k"
proof (induction h r k and h ms k rule: mapping_getitem_getitem_loop.induct)
  case (1 h a key)
  then show ?case
    by (auto simp: dict_getitem_def split: option.splits)
next
  case (2 h c ms key)
  then show ?case by simp
next
  case (3 h key)
  then show ?case by (simp add: missing_def)
next
  case (4 h m ms key)
  then show ?case
    by (auto split: sum.splits if_splits)
qed

text \<open>A layer that contains the key returns a value for it.\<close>

lemma mapping_contains_getitem:
  "mapping_contains h r k \<Longrightarrow> \<exists>v. mapping_getitem h r k = Inr v"
  "list_ex (\<lambda>m. mapping_contains h m k) ms \<Longrightarrow> \<exists>v. getitem_loop h ms k = Inr v"
proof (induction h r k and h ms k rule: mapping_getitem_getitem_loop.induct)
  case (1 h a key)
  then show ?case
    by (auto simp: dict_getitem_def dict_contains_def)
next
  case (2 h c ms key)
  then show ?case by simp
next
  case (3 h key)
  then show ?case by simp
next
  case (4 h m ms key)
  show ?case
  proof (cases "mapping_getitem h m key")
    case (Inr v)
    then show ?thesis by simp
  next
    case (Inl e)
    then have e: "e = KeyError key" by (rule mapping_getitem_error)
    have "\<not> mapping_contains h m key"
      using "4.IH"(1) Inl by auto
    with "4.prems" have "list_ex (\<lambda>m. mapping_contains h m key) ms" by simp
    with "4.IH"(2) [OF Inl] e obtain v where "getitem_loop h ms key = Inr v" by auto
    with Inl e show ?thesis by simp
  qed
qed

text \<open>
  The loop of \<open>__getitem__\<close> over layers whose lookup agrees with their containment
  test.
\<close>

lemma getitem_loop_none:
  "\<forall>m\<in>set ms. lookup_agrees h m k \<and> \<not> mapping_contains h m k \<Longrightarrow>
   getitem_loop h ms k = Inl (KeyError k)"
proof (induction ms)
  case Nil
  then show ?case by (simp add: missing_def)
next
  case (Cons m ms)
  then obtain e where "mapping_getitem h m k = Inl e" "is_KeyError e"
    by (auto simp: lookup_agrees_def split: sum.splits)
  with Cons show ?case by simp
qed

lemma getitem_loop_first:
  assumes "list_ex (\<lambda>m. mapping_contains h m k) ms"
    and "\<forall>m\<in>set ms. lookup_agrees h m k"
  shows "\<exists>i v. i < length ms \<and> (\<forall>j<i. \<not> mapping_contains h (ms ! j) k)
     \<and> mapping_contains h (ms ! i) k
     \<and> mapping_getitem h (ms ! i) k = Inr v \<and> getitem_loop h ms k = Inr v"
  using assms
proof (induction ms)
  case Nil
  then show ?case by simp
next
  case (Cons m ms)
  have agrees: "lookup_agrees h m k" using Cons.prems(2) by simp
  show ?case
  proof (cases "mapping_contains h m k")
    case True
    with agrees obtain v where v: "mapping_getitem h m k = Inr v"
      by (auto simp: lookup_agrees_def split: sum.splits)
    then have "0 < length (m # ms) \<and> (\<forall>j<0. \<not> mapping_contains h ((m # ms) ! j) k)
        \<and> mapping_contains h ((m # ms) ! 0) k
        \<and> mapping_getitem h ((m # ms) ! 0) k = Inr v \<and> getitem_loop h (m # ms) k = Inr v"
      using True by simp
    then show ?thesis by blast
  next
    case False
    with Cons.prems have ex: "list_ex (\<lambda>m. mapping_contains h m k) ms" by simp
    have rest: "\<forall>m\<in>set ms. lookup_agrees h m k"
      using Cons.prems(2) by simp
    from Cons.IH [OF ex rest] obtain i v where iv: "i < length ms"
      "\<forall>j<i. \<not> mapping_contains h (ms ! j) k" "mapping_contains h (ms ! i) k"
      "mapping_getitem h (ms ! i) k = Inr v" "getitem_loop h ms k = Inr v"
      by blast
    from agrees False obtain e where "mapping_getitem h m k = Inl e" "is_KeyError e"
      by (auto simp: lookup_agrees_def split: sum.splits)
    then have skip: "getitem_loop h (m # ms) k = getitem_loop h ms k"
      by simp
    have before: "\<forall>j<Suc i. \<not> mapping_contains h ((m # ms) ! j) k"
    proof (intro allI impI)
      fix j assume "j < Suc i"
      then show "\<not> mapping_contains h ((m # ms) ! j) k"
        using False iv(2) by (cases j) simp_all
    qed
    have "Suc i < length (m # ms) \<and> (\<forall>j<Suc i. \<not> mapping_contains h ((m # ms) ! j) k)
        \<and> mapping_contains h ((m # ms) ! Suc i) k
        \<and> mapping_getitem h ((m # ms) ! Suc i) k = Inr v \<and> getitem_loop h (m # ms) k = Inr v"
      using iv before skip by simp
    then show ?thesis by blast
  qed
qed

text \<open>
  Plain dicts, and chain maps all of whose dicts are plain, raise \<open>KeyError\<close> for a key
  they do not contain.
\<close>

lemma plain_getitem_strict:
  "\<forall>a\<in>mapping_dicts r. missing_hook (h ! a) = None \<Longrightarrow> \<not> mapping_contains h r k \<Longrightarrow>
   mapping_getitem h r k = Inl (KeyError k)"
  "\<forall>m\<in>set ms. \<forall>a\<in>mapping_dicts m. missing_hook (h ! a) = None \<Longrightarrow>
   \<not> list_ex (\<lambda>m. mapping_contains h m k) ms \<Longrightarrow>
   getitem_loop h ms k = Inl (KeyError k)"
proof (induction h r k and h ms k rule: mapping_getitem_getitem_loop.induct)
  case (1 h a key)
  then show ?case by (simp add: dict_getitem_def dict_contains_def)
next
  case (2 h c ms key)
  then show ?case by simp
next
  case (3 h key)
  then show ?case by (simp add: missing_def)
next
  case (4 h m ms key)
  have "mapping_getitem h m key = Inl (KeyError key)"
    using "4.IH"(1) "4.prems" by simp
  moreover from this have "getitem_loop h ms key = Inl (KeyError key)"
    using "4.IH"(2) "4.prems" by simp
  ultimately show ?case by simp
qed

lemma plain_lookup_agrees:
  assumes "\<forall>a\<in>mapping_dicts m. missing_hook (h ! a) = None"
  shows "lookup_agrees h m k"
proof (cases "mapping_contains h m k")
  case True
  from mapping_contains_getitem(1) [OF this] True show ?thesis
    by (auto simp: lookup_agrees_def)
next
  case False
  from plain_getitem_strict(1) [OF assms this] False show ?thesis
    by (simp add: lookup_agrees_def)
qed

text \<open>
  C2, as amended. For every layer sequence in which each layer's own lookup of \<open>k\<close>
  returns a value when that layer contains \<open>k\<close> and raises \<open>KeyError\<close> when it does not
  (plain dicts do, and so do chain maps over plain dicts), \<open>get(k)\<close> (the method
  \<open>__getitem__\<close>) succeeds if and only if \<open>containsKey(k)\<close> (\<open>__contains__\<close>) is true.
  When it succeeds, it returns the value that the lowest-indexed layer containing \<open>k\<close>
  holds for \<open>k\<close>: there is a layer \<open>i\<close> that contains \<open>k\<close> and returns that value for it
  (when layer \<open>i\<close> is a dict, its entry for \<open>k\<close>), and no layer before \<open>i\<close> contains \<open>k\<close>.
  When no layer contains \<open>k\<close>, it fails with \<open>KeyError(k)\<close>, the spec's \<open>MissingKey(k)\<close>.
\<close>

theorem getitem_first_layer:
  assumes "\<forall>m\<in>set (maps_attr self). lookup_agrees h m k"
  shows "((\<exists>v. getitem h self k = Inr v) \<longleftrightarrow> contains h self k)
   \<and> (contains h self k \<longrightarrow>
        (\<exists>i v. i < length (maps_attr self)
           \<and> (\<forall>j<i. \<not> mapping_contains h (maps_attr self ! j) k)
           \<and> mapping_contains h (maps_attr self ! i) k
           \<and> mapping_getitem h (maps_attr self ! i) k = Inr v
           \<and> (\<forall>a. maps_attr self ! i = DictRef a \<longrightarrow> map_of (entries (h ! a)) k = Some v)
           \<and> getitem h self k = Inr v))
   \<and> (\<not> contains h self k \<longrightarrow> getitem h self k = Inl (KeyError k))"
proof (cases "contains h self k")
  case True
  then have "list_ex (\<lambda>m. mapping_contains h m k) (maps_attr self)"
    by (simp add: contains_def as_mapping_def)
  from getitem_loop_first [OF this assms] obtain i v where iv:
    "i < length (maps_attr self)" "\<forall>j<i. \<not> mapping_contains h (maps_attr self ! j) k"
    "mapping_contains h (maps_attr self ! i) k"
    "mapping_getitem h (maps_attr self ! i) k = Inr v"
    "getitem_loop h (maps_attr self) k = Inr v"
    by blast
  have "\<forall>a. maps_attr self ! i = DictRef a \<longrightarrow> map_of (entries (h ! a)) k = Some v"
    using iv(3,4) by (auto simp: dict_getitem_def dict_contains_def)
  with iv have "i < length (maps_attr self)
     \<and> (\<forall>j<i. \<not> mapping_contains h (maps_attr self ! j) k)
     \<and> mapping_contains h (maps_attr self ! i) k
     \<and> mapping_getitem h (maps_attr self ! i) k = Inr v
     \<and> (\<forall>a. maps_attr self ! i = DictRef a \<longrightarrow> map_of (entries (h ! a)) k = Some v)
     \<and> getitem h self k = Inr v"
    by (simp add: getitem_def as_mapping_def)
  then show ?thesis using True by blast
next
  case False
  then have "\<forall>m\<in>set (maps_attr self). lookup_agrees h m k \<and> \<not> mapping_contains h m k"
    using assms by (simp add: contains_def as_mapping_def list_ex_iff)
  then have "getitem h self k = Inl (KeyError k)"
    by (simp add: getitem_def as_mapping_def getitem_loop_none)
  with False show ?thesis by simp
qed

theorem getitem_first_layer_witness:
  "contains [DictObj None [(''a'', 1::int), (''b'', 2)], DictObj None [(''b'', 99), (''c'', 3)]]
      \<lparr>cls = ChainMap, maps_attr = [DictRef 0, DictRef 1]\<rparr> ''b''
   \<and> getitem [DictObj None [(''a'', 1::int), (''b'', 2)], DictObj None [(''b'', 99), (''c'', 3)]]
      \<lparr>cls = ChainMap, maps_attr = [DictRef 0, DictRef 1]\<rparr> ''b'' = Inr 2
   \<and> lookup_agrees
        [DictObj None [(''a'', 1::int), (''b'', 2)], DictObj None [(''b'', 99), (''c'', 3)]]
        (DictRef 0) ''b''
   \<and> lookup_agrees
        [DictObj None [(''a'', 1::int), (''b'', 2)], DictObj None [(''b'', 99), (''c'', 3)]]
        (DictRef 1) ''b''"
  using getitem_first_layer
    [of "\<lparr>cls = ChainMap, maps_attr = [DictRef 0, DictRef 1]\<rparr>"
        "[DictObj None [(''a'', 1::int), (''b'', 2)], DictObj None [(''b'', 99), (''c'', 3)]]"
        "''b''"]
  by (simp add: contains_def getitem_def as_mapping_def dict_contains_def dict_getitem_def
      lookup_agrees_def)

text \<open>
  C2 as it was stated fails for a layer that returns a value for a key it does not
  contain: for \<open>class D(dict)\<close> with \<open>__missing__\<close> returning 0 (or a
  \<open>collections.Counter\<close>) and \<open>c = ChainMap(D())\<close>, \<open>c["z"]\<close> returns 0 while \<open>"z" in c\<close>
  is false.
\<close>

theorem getitem_missing_hook_counterexample:
  "getitem [DictObj (Some (0::int)) []] \<lparr>cls = ChainMap, maps_attr = [DictRef 0]\<rparr> ''z'' = Inr 0
   \<and> \<not> contains [DictObj (Some (0::int)) []] \<lparr>cls = ChainMap, maps_attr = [DictRef 0]\<rparr> ''z''"
  by (simp add: contains_def getitem_def as_mapping_def dict_contains_def dict_getitem_def)

text \<open>
  C6. \<open>getOrDefault(k, d)\<close> (the method \<open>get\<close>) never raises: it always returns a value.
  When some layer contains \<open>k\<close>, that value is the one \<open>__getitem__\<close> returns; when no
  layer contains \<open>k\<close>, it is the default \<open>d\<close>.
\<close>

theorem get_never_raises:
  "(\<exists>v. get h self k d = Inr v)
   \<and> (contains h self k \<longrightarrow> (\<exists>v. getitem h self k = Inr v \<and> get h self k d = Inr v))
   \<and> (\<not> contains h self k \<longrightarrow> get h self k d = Inr d)"
proof (cases "contains h self k")
  case True
  then have "mapping_contains h (as_mapping self) k"
    by (simp add: contains_def)
  from mapping_contains_getitem(1) [OF this] obtain v where "getitem h self k = Inr v"
    by (auto simp: getitem_def)
  with True show ?thesis by (simp add: get_def)
next
  case False
  then show ?thesis by (simp add: get_def)
qed

theorem get_never_raises_witness:
  "get [DictObj None [(''a'', 1::int), (''b'', 2)], DictObj None [(''b'', 99), (''c'', 3)]]
      \<lparr>cls = ChainMap, maps_attr = [DictRef 0, DictRef 1]\<rparr> ''c'' 0 = Inr 3
   \<and> get [DictObj None [(''a'', 1::int), (''b'', 2)], DictObj None [(''b'', 99), (''c'', 3)]]
      \<lparr>cls = ChainMap, maps_attr = [DictRef 0, DictRef 1]\<rparr> ''z'' 0 = Inr 0"
  using get_never_raises
    [of "[DictObj None [(''a'', 1::int), (''b'', 2)], DictObj None [(''b'', 99), (''c'', 3)]]"
        "\<lparr>cls = ChainMap, maps_attr = [DictRef 0, DictRef 1]\<rparr>" "''c''" 0]
  by (simp add: get_def contains_def getitem_def as_mapping_def dict_contains_def
      dict_getitem_def)

section \<open>Size\<close>

lemma set_fold_insert: "set (fold List.insert xs acc) = set xs \<union> set acc"
  by (induction xs arbitrary: acc) auto

lemma distinct_fold_insert: "distinct acc \<Longrightarrow> distinct (fold List.insert xs acc)"
  by (induction xs arbitrary: acc) auto

lemma set_set_union: "set (set_union s others) = set s \<union> (\<Union>it\<in>set others. set it)"
  unfolding set_union_def
  by (induction others arbitrary: s) (auto simp: set_fold_insert)

lemma distinct_set_union: "distinct s \<Longrightarrow> distinct (set_union s others)"
  unfolding set_union_def
  by (induction others arbitrary: s) (auto simp: distinct_fold_insert)

lemma set_mapping_iter: "set (mapping_iter h r) = mapping_keys h r"
  by (induction h r rule: mapping_iter.induct) (simp_all add: set_set_union)

lemma mapping_contains_keys: "mapping_contains h r k \<longleftrightarrow> k \<in> mapping_keys h r"
  by (induction h r k rule: mapping_contains.induct)
    (auto simp: dict_contains_def dict_keys_def map_of_eq_None_iff list_ex_iff)

text \<open>
  C5. \<open>size()\<close> (the method \<open>__len__\<close>) is the cardinality of the union of the key sets
  of all layers, so a key that several layers hold is counted once. For the layers
  \<open>[{"a":1,"b":2}, {"b":99,"c":3}]\<close> it is 3.
\<close>

theorem len_card_union:
  "len h self = card (\<Union>m\<in>set (maps_attr self). mapping_keys h m)"
proof -
  let ?ks = "set_union [] (map (mapping_iter h) (maps_attr self))"
  have "distinct ?ks" by (simp add: distinct_set_union)
  then have "length ?ks = card (set ?ks)" by (simp add: distinct_card)
  also have "set ?ks = (\<Union>m\<in>set (maps_attr self). mapping_keys h m)"
    by (simp add: set_set_union set_mapping_iter)
  finally show ?thesis by (simp add: len_def)
qed

theorem len_card_union_witness:
  "len [DictObj None [(''a'', 1::int), (''b'', 2)], DictObj None [(''b'', 99), (''c'', 3)]]
      \<lparr>cls = ChainMap, maps_attr = [DictRef 0, DictRef 1]\<rparr> = 3
   \<and> card (\<Union>m\<in>set [DictRef 0, DictRef 1].
        mapping_keys
          [DictObj None [(''a'', 1::int), (''b'', 2)], DictObj None [(''b'', 99), (''c'', 3)]] m)
      = 3"
  using len_card_union
    [of "[DictObj None [(''a'', 1::int), (''b'', 2)], DictObj None [(''b'', 99), (''c'', 3)]]"
        "\<lparr>cls = ChainMap, maps_attr = [DictRef 0, DictRef 1]\<rparr>"]
  by (simp add: len_def set_union_def dict_keys_def)

section \<open>Construction and derived instances\<close>

lemma mapping_valid_dicts: "mapping_valid h r \<Longrightarrow> a \<in> mapping_dicts r \<Longrightarrow> a < length h"
  by (induction h r rule: mapping_valid.induct) (auto simp: list_all_iff)

lemma mapping_valid_mono:
  "length h \<le> length h' \<Longrightarrow> mapping_valid h r \<Longrightarrow> mapping_valid h' r"
  by (induction h r rule: mapping_valid.induct) (auto simp: list_all_iff)

text \<open>
  C7. A layer sequence is never empty. \<open>__init__\<close> with no layers allocates one empty
  dict and stores the reference to it as the only layer; with one or more layers it
  stores exactly the references given, in the order given, and allocates nothing. The
  other two ways the class builds an instance, \<open>new_child\<close> and \<open>parents\<close>, go through
  \<open>__init__\<close> and so yield a non-empty sequence too.
\<close>

theorem init_at_least_one_layer:
  "maps_attr (snd (init c h ms)) \<noteq> []
   \<and> (ms = [] \<longrightarrow>
        fst (init c h ms) = h @ [DictObj None []]
        \<and> maps_attr (snd (init c h ms)) = [DictRef (length h)]
        \<and> fst (init c h ms) ! length h = DictObj None []
        \<and> mapping_keys (fst (init c h ms)) (maps_attr (snd (init c h ms)) ! 0) = {})
   \<and> (ms \<noteq> [] \<longrightarrow> fst (init c h ms) = h \<and> maps_attr (snd (init c h ms)) = ms)
   \<and> maps_attr (snd (new_child h self m)) \<noteq> []
   \<and> maps_attr (snd (parents h self)) \<noteq> []"
  by (simp add: init_def new_child_def parents_def dict_keys_def split: option.split)

theorem init_at_least_one_layer_witness:
  "init ChainMap [DictObj None [(''a'', 1::int)]] []
     = ([DictObj None [(''a'', 1)], DictObj None []],
        \<lparr>cls = ChainMap, maps_attr = [DictRef 1]\<rparr>)
   \<and> init ChainMap [DictObj None [(''a'', 1::int)], DictObj None []] [DictRef 1, DictRef 0]
     = ([DictObj None [(''a'', 1)], DictObj None []],
        \<lparr>cls = ChainMap, maps_attr = [DictRef 1, DictRef 0]\<rparr>)"
  using init_at_least_one_layer [of ChainMap "[DictObj None [(''a'', 1::int)]]" "[]"]
    init_at_least_one_layer
      [of ChainMap "[DictObj None [(''a'', 1::int)], DictObj None []]" "[DictRef 1, DictRef 0]"]
  by (simp add: init_def)

text \<open>
  C10. \<open>parents\<close> of an instance with exactly one layer is an instance whose only layer
  is a newly allocated empty dict: its address is the old heap's length, which is none
  of the dicts of the original instance. \<open>parents\<close> never yields an instance without
  layers; with two or more layers it yields the references after the first and allocates
  nothing.
\<close>

theorem parents_single_layer:
  "maps_attr (snd (parents h self)) \<noteq> []
   \<and> (length (maps_attr self) = 1 \<longrightarrow>
        fst (parents h self) = h @ [DictObj None []]
        \<and> maps_attr (snd (parents h self)) = [DictRef (length h)]
        \<and> fst (parents h self) ! length h = DictObj None []
        \<and> mapping_keys (fst (parents h self)) (maps_attr (snd (parents h self)) ! 0) = {}
        \<and> (valid_refs h self \<longrightarrow> length h \<notin> (\<Union>m\<in>set (maps_attr self). mapping_dicts m)))
   \<and> (1 < length (maps_attr self) \<longrightarrow>
        fst (parents h self) = h \<and> maps_attr (snd (parents h self)) = tl (maps_attr self))"
proof -
  have "length (maps_attr self) = 1 \<Longrightarrow> tl (maps_attr self) = []"
    by (cases "maps_attr self") simp_all
  moreover have "1 < length (maps_attr self) \<Longrightarrow> tl (maps_attr self) \<noteq> []"
    by (cases "maps_attr self") auto
  moreover have "valid_refs h self \<Longrightarrow> length h \<notin> (\<Union>m\<in>set (maps_attr self). mapping_dicts m)"
    using mapping_valid_dicts [of h _ "length h"] by (auto simp: valid_refs_def list_all_iff)
  ultimately show ?thesis
    by (simp add: parents_def init_def dict_keys_def)
qed

theorem parents_single_layer_witness:
  "parents [DictObj None [(''a'', 1::int)]] \<lparr>cls = ChainMap, maps_attr = [DictRef 0]\<rparr>
     = ([DictObj None [(''a'', 1)], DictObj None []], \<lparr>cls = ChainMap, maps_attr = [DictRef 1]\<rparr>)
   \<and> valid_refs [DictObj None [(''a'', 1::int)]] \<lparr>cls = ChainMap, maps_attr = [DictRef 0]\<rparr>"
  using parents_single_layer
    [of "[DictObj None [(''a'', 1::int)]]" "\<lparr>cls = ChainMap, maps_attr = [DictRef 0]\<rparr>"]
  by (simp add: parents_def init_def valid_refs_def)

lemma new_child_maps:
  "maps_attr (snd (new_child h self (Some r))) = r # tl (maps_attr self)
   \<and> maps_attr (snd (new_child h self None)) = DictRef (length h) # tl (maps_attr self)"
  by (simp add: new_child_def init_def)

text \<open>
  C1. \<open>newChild(m)\<close> on the layers \<open>[L0, ..., Ln-1]\<close> should yield the layers
  \<open>[m, L0, ..., Ln-1]\<close>. \<open>new_child\<close> passes \<open>self.maps[1:]\<close> on, not \<open>self.maps\<close>, so
  the original layer 0 is lost: on the layers \<open>[{"a":1}, {"b":2}]\<close> (addresses 0 and 1)
  and \<open>m = {"x":1}\<close> (address 2) the result has the layers at addresses \<open>[2, 1]\<close> and not
  \<open>[2, 0, 1]\<close>; with no \<open>m\<close>, the result has a new empty dict (address 3) and layer 1.
\<close>

theorem new_child_drops_layer0:
  "new_child [DictObj None [(''a'', 1::int)], DictObj None [(''b'', 2)], DictObj None [(''x'', 1)]]
      \<lparr>cls = ChainMap, maps_attr = [DictRef 0, DictRef 1]\<rparr> (Some (DictRef 2))
     = ([DictObj None [(''a'', 1)], DictObj None [(''b'', 2)], DictObj None [(''x'', 1)]],
        \<lparr>cls = ChainMap, maps_attr = [DictRef 2, DictRef 1]\<rparr>)
   \<and> maps_attr (snd (new_child
        [DictObj None [(''a'', 1::int)], DictObj None [(''b'', 2)], DictObj None [(''x'', 1)]]
        \<lparr>cls = ChainMap, maps_attr = [DictRef 0, DictRef 1]\<rparr> (Some (DictRef 2))))
       \<noteq> [DictRef 2, DictRef 0, DictRef 1]
   \<and> new_child [DictObj None [(''a'', 1::int)], DictObj None [(''b'', 2)], DictObj None [(''x'', 1)]]
      \<lparr>cls = ChainMap, maps_attr = [DictRef 0, DictRef 1]\<rparr> None
     = ([DictObj None [(''a'', 1)], DictObj None [(''b'', 2)], DictObj None [(''x'', 1)],
         DictObj None []],
        \<lparr>cls = ChainMap, maps_attr = [DictRef 3, DictRef 1]\<rparr>)"
  by (simp add: new_child_def init_def)

section \<open>Writes, deletions and the layers they leave alone\<close>

text \<open>
  The theorems of this section are about an instance with at least one layer, all of
  whose references are allocated. Every instance the class builds has a layer, since
  the constructor never stores an empty list, and the lemmas below show that the
  references stay allocated: the constructor and the derived instances keep them so, and
  a write to a dict moves none of them.
\<close>

lemma init_valid_refs:
  "list_all (mapping_valid h) ms \<Longrightarrow> valid_refs (fst (init c h ms)) (snd (init c h ms))"
  by (simp add: init_def valid_refs_def)

lemma parents_valid_refs:
  assumes "valid_refs h self"
  shows "valid_refs (fst (parents h self)) (snd (parents h self))"
proof -
  have "list_all (mapping_valid h) (tl (maps_attr self))"
    using assms by (cases "maps_attr self") (simp_all add: valid_refs_def)
  then show ?thesis
    by (simp add: parents_def init_def valid_refs_def)
qed

lemma new_child_valid_refs:
  assumes "valid_refs h self" and "case m of None \<Rightarrow> True | Some r \<Rightarrow> mapping_valid h r"
  shows "valid_refs (fst (new_child h self m)) (snd (new_child h self m))"
proof -
  have tl: "list_all (mapping_valid h) (tl (maps_attr self))"
    using assms(1) by (cases "maps_attr self") (simp_all add: valid_refs_def)
  then have "list_all (mapping_valid (h @ [DictObj None []])) (tl (maps_attr self))"
    using mapping_valid_mono [of h "h @ [DictObj None []]"] by (simp add: list_all_iff)
  with tl assms(2) show ?thesis
    by (cases m) (simp_all add: new_child_def init_def valid_refs_def)
qed

lemma valid_refs_update: "valid_refs h self \<Longrightarrow> valid_refs (h[a := d]) self"
  using mapping_valid_mono [of h "h[a := d]"]
  by (simp add: valid_refs_def list_all_iff)

text \<open>
  A mapping object none of whose dicts has changed answers every question as before.
\<close>

lemma mapping_contains_frame:
  "\<forall>b\<in>mapping_dicts r. h' ! b = h ! b \<Longrightarrow> mapping_contains h' r k = mapping_contains h r k"
  by (induction r) (simp_all add: list_ex_iff)

lemma mapping_iter_frame:
  "\<forall>b\<in>mapping_dicts r. h' ! b = h ! b \<Longrightarrow> mapping_iter h' r = mapping_iter h r"
proof (induction r)
  case (DictRef a)
  then show ?case by simp
next
  case (ChainRef c ms)
  have "map (mapping_iter h') ms = map (mapping_iter h) ms"
    by (rule map_cong) (use ChainRef in auto)
  then show ?case by (simp only: mapping_iter.simps)
qed

lemma mapping_getitem_frame:
  "\<forall>b\<in>mapping_dicts r. h' ! b = h ! b \<Longrightarrow> mapping_getitem h' r k = mapping_getitem h r k"
  "\<forall>m\<in>set ms. \<forall>b\<in>mapping_dicts m. h' ! b = h ! b \<Longrightarrow>
   getitem_loop h' ms k = getitem_loop h ms k"
  by (induction h r k and h ms k rule: mapping_getitem_getitem_loop.induct)
    (simp_all split: sum.splits)

text \<open>A mapping object one of whose dicts has the key contains the key.\<close>

lemma dict_contains_mapping_contains:
  "a \<in> mapping_dicts r \<Longrightarrow> dict_contains (h ! a) k \<Longrightarrow> mapping_contains h r k"
  by (induction r) (auto simp: list_ex_iff)

text \<open>
  Writing the dict at one address: every other dict of the heap is as before, and so is
  every mapping object that does not have the dict written among its dicts.
\<close>

lemma heap_update_frame:
  "length (h[a := d]) = length h
   \<and> (\<forall>b. b \<noteq> a \<longrightarrow> h[a := d] ! b = h ! b)
   \<and> (\<forall>i<length ms. a \<notin> mapping_dicts (ms ! i) \<longrightarrow>
         (\<forall>b\<in>mapping_dicts (ms ! i). h[a := d] ! b = h ! b))"
proof -
  have "h[a := d] ! b = h ! b" if "b \<in> mapping_dicts r" and "a \<notin> mapping_dicts r" for b r
  proof -
    from that have "a \<noteq> b" by blast
    then show ?thesis by simp
  qed
  then show ?thesis by simp
qed

subsection \<open>\<open>del\<close> on the base class\<close>

lemma delitem_dict_layer0:
  assumes "cls self = ChainMap" and "maps_attr self = DictRef a # rest"
  shows "delitem h self k =
     (if dict_contains (h ! a) k
      then Inr (h[a := DictObj (missing_hook (h ! a)) (AList.delete k (entries (h ! a)))])
      else Inl (KeyError_not_in_first k))"
  using assms by (simp add: delitem_def as_mapping_def dict_delitem_def)

text \<open>
  C3, as amended. On a \<open>ChainMap\<close> whose layer 0 is a dict, \<open>delete(k)\<close> fails exactly
  when layer 0 does not contain \<open>k\<close>, whatever the lower layers contain, and the failure
  is the \<open>KeyError\<close> whose message names \<open>k\<close> (the spec's \<open>MissingKey(k)\<close>). When layer 0
  contains \<open>k\<close>, it succeeds: \<open>k\<close> is removed from layer 0, whose other keys keep their
  values, no other dict of the heap changes, and every layer that does not have the dict
  of layer 0 among its dicts is unchanged.
\<close>

theorem delitem_layer0_only:
  assumes "cls self = ChainMap" and "maps_attr self = DictRef a # rest" and "a < length h"
  shows "((\<exists>e. delitem h self k = Inl e) \<longleftrightarrow> \<not> mapping_contains h (maps_attr self ! 0) k)
     \<and> (delitem h self k = Inl (KeyError_not_in_first k)
          \<longleftrightarrow> \<not> mapping_contains h (maps_attr self ! 0) k)
     \<and> (mapping_contains h (maps_attr self ! 0) k \<longrightarrow>
          (\<exists>h'. delitem h self k = Inr h'
             \<and> map_of (entries (h' ! a)) = (map_of (entries (h ! a)))(k := None)
             \<and> missing_hook (h' ! a) = missing_hook (h ! a)
             \<and> length h' = length h
             \<and> (\<forall>b. b \<noteq> a \<longrightarrow> h' ! b = h ! b)
             \<and> (\<forall>i<length (maps_attr self).
                   a \<notin> mapping_dicts (maps_attr self ! i) \<longrightarrow>
                   (\<forall>b\<in>mapping_dicts (maps_attr self ! i). h' ! b = h ! b))))"
proof -
  let ?d = "DictObj (missing_hook (h ! a)) (AList.delete k (entries (h ! a)))"
  have l0: "mapping_contains h (maps_attr self ! 0) k = dict_contains (h ! a) k"
    using assms(2) by simp
  have del: "delitem h self k =
     (if dict_contains (h ! a) k then Inr (h[a := ?d]) else Inl (KeyError_not_in_first k))"
    using assms(1,2) by (rule delitem_dict_layer0)
  have "map_of (entries (h[a := ?d] ! a)) = (map_of (entries (h ! a)))(k := None)"
    "missing_hook (h[a := ?d] ! a) = missing_hook (h ! a)"
    using assms(3) by (simp_all add: delete_conv')
  then show ?thesis
    using del l0 heap_update_frame [of h a ?d "maps_attr self"] by simp
qed

theorem delitem_layer0_only_witness:
  "delitem [DictObj None [(''a'', 1::int)], DictObj None [(''b'', 2)]]
        \<lparr>cls = ChainMap, maps_attr = [DictRef 0, DictRef 1]\<rparr> ''b''
     = Inl (KeyError_not_in_first ''b'')
   \<and> mapping_contains [DictObj None [(''a'', 1::int)], DictObj None [(''b'', 2)]]
        (maps_attr \<lparr>cls = ChainMap, maps_attr = [DictRef 0, DictRef 1]\<rparr> ! 1) ''b''
   \<and> delitem [DictObj None [(''a'', 1::int), (''b'', 5)], DictObj None [(''b'', 2)]]
        \<lparr>cls = ChainMap, maps_attr = [DictRef 0, DictRef 1]\<rparr> ''b''
     = Inr [DictObj None [(''a'', 1)], DictObj None [(''b'', 2)]]"
  using delitem_layer0_only
    [of "\<lparr>cls = ChainMap, maps_attr = [DictRef 0, DictRef 1]\<rparr>" 0 "[DictRef 1]"
        "[DictObj None [(''a'', 1::int)], DictObj None [(''b'', 2)]]" "''b''"]
  by (simp add: delitem_def as_mapping_def dict_delitem_def dict_contains_def AList.delete_eq)

text \<open>
  C3 as it was stated fails in two ways. When layer 0 is itself a chain map, the deletion
  is passed on to its first map: for \<open>ChainMap(ChainMap({"a": 1}, {"b": 2}))\<close>,
  \<open>del c["b"]\<close> raises although layer 0 contains \<open>"b"\<close>. When a lower layer is the same
  object as layer 0, it changes with it: for \<open>d = {"a": 1}\<close> and \<open>ChainMap(d, d)\<close>,
  \<open>del c["a"]\<close> succeeds, and layer 1, which returned 1 for \<open>"a"\<close>, raises \<open>KeyError\<close>
  afterwards.
\<close>

theorem delitem_counterexample:
  "delitem [DictObj None [(''a'', 1::int)], DictObj None [(''b'', 2)]]
        \<lparr>cls = ChainMap, maps_attr = [ChainRef ChainMap [DictRef 0, DictRef 1]]\<rparr> ''b''
     = Inl (KeyError_not_in_first ''b'')
   \<and> mapping_contains [DictObj None [(''a'', 1::int)], DictObj None [(''b'', 2)]]
        (maps_attr \<lparr>cls = ChainMap, maps_attr = [ChainRef ChainMap [DictRef 0, DictRef 1]]\<rparr> ! 0)
        ''b''
   \<and> delitem [DictObj None [(''a'', 1::int)]]
        \<lparr>cls = ChainMap, maps_attr = [DictRef 0, DictRef 0]\<rparr> ''a''
     = Inr [DictObj None []]
   \<and> mapping_getitem [DictObj None [(''a'', 1::int)]] (DictRef 0) ''a'' = Inr 1
   \<and> mapping_getitem [DictObj None ([]::(string \<times> int) list)] (DictRef 0) ''a''
     = Inl (KeyError ''a'')"
  by (simp add: delitem_def as_mapping_def dict_delitem_def dict_contains_def dict_getitem_def
      AList.delete_eq)

subsection \<open>Assignment on the deep class\<close>

text \<open>An assignment through a mapping object writes the key into one of its dicts.\<close>

lemma mapping_setitem_writes_one:
  "mapping_valid h r \<Longrightarrow>
   \<exists>a\<in>mapping_dicts r. a < length h
     \<and> mapping_setitem h r k v = Inr (h[a := dict_setitem (h ! a) k v])"
  "list_all (mapping_valid h) ms \<Longrightarrow> DeepChainMap_setitem_loop h ms k v = Some res \<Longrightarrow>
   \<exists>a\<in>(\<Union>m\<in>set ms. mapping_dicts m). a < length h
     \<and> res = Inr (h[a := dict_setitem (h ! a) k v])"
proof (induction h r k v and h ms k v arbitrary: and res
    rule: mapping_setitem_DeepChainMap_setitem_loop.induct)
  case (1 h a key v)
  then show ?case by simp
next
  case (2 h key v)
  then show ?case by simp
next
  case (3 h m ms key v)
  then show ?case by auto
next
  case (4 h key v)
  then show ?case by simp
next
  case (5 h m ms key v)
  show ?case
  proof (cases "DeepChainMap_setitem_loop h (m # ms) key v")
    case None
    then show ?thesis using "5.IH"(2) "5.prems" by auto
  next
    case (Some res)
    have "list_all (mapping_valid h) (m # ms)" using "5.prems" by simp
    from "5.IH"(1) [OF this Some] Some show ?thesis by auto
  qed
next
  case (6 h key v)
  then show ?case by simp
next
  case (7 h m ms key v)
  show ?case
  proof (cases "mapping_contains h m key")
    case True
    then have "res = mapping_setitem h m key v" using "7.prems" by simp
    moreover have "mapping_valid h m" using "7.prems" by simp
    ultimately show ?thesis using "7.IH"(1) [OF True] by auto
  next
    case False
    then have "DeepChainMap_setitem_loop h ms key v = Some res"
      using "7.prems" by simp
    moreover have "list_all (mapping_valid h) ms" using "7.prems" by simp
    ultimately show ?thesis using "7.IH"(2) [OF False] by auto
  qed
qed

lemma DeepChainMap_setitem_loop_none:
  "\<not> list_ex (\<lambda>m. mapping_contains h m k) ms \<Longrightarrow> DeepChainMap_setitem_loop h ms k v = None"
  by (induction ms) simp_all

lemma DeepChainMap_setitem_loop_first:
  "list_ex (\<lambda>m. mapping_contains h m k) ms \<Longrightarrow>
   \<exists>i. i < length ms \<and> (\<forall>j<i. \<not> mapping_contains h (ms ! j) k)
     \<and> mapping_contains h (ms ! i) k
     \<and> DeepChainMap_setitem_loop h ms k v = Some (mapping_setitem h (ms ! i) k v)"
proof (induction ms)
  case Nil
  then show ?case by simp
next
  case (Cons m ms)
  show ?case
  proof (cases "mapping_contains h m k")
    case True
    then have "0 < length (m # ms) \<and> (\<forall>j<0. \<not> mapping_contains h ((m # ms) ! j) k)
      \<and> mapping_contains h ((m # ms) ! 0) k
      \<and> DeepChainMap_setitem_loop h (m # ms) k v = Some (mapping_setitem h ((m # ms) ! 0) k v)"
      by simp
    then show ?thesis by blast
  next
    case False
    with Cons.prems have "list_ex (\<lambda>m. mapping_contains h m k) ms" by simp
    from Cons.IH [OF this] obtain i where i: "i < length ms"
      "\<forall>j<i. \<not> mapping_contains h (ms ! j) k" "mapping_contains h (ms ! i) k"
      "DeepChainMap_setitem_loop h ms k v = Some (mapping_setitem h (ms ! i) k v)"
      by blast
    have before: "\<forall>j<Suc i. \<not> mapping_contains h ((m # ms) ! j) k"
    proof (intro allI impI)
      fix j assume "j < Suc i"
      then show "\<not> mapping_contains h ((m # ms) ! j) k"
        using False i(2) by (cases j) simp_all
    qed
    have "Suc i < length (m # ms) \<and> (\<forall>j<Suc i. \<not> mapping_contains h ((m # ms) ! j) k)
      \<and> mapping_contains h ((m # ms) ! Suc i) k
      \<and> DeepChainMap_setitem_loop h (m # ms) k v
          = Some (mapping_setitem h ((m # ms) ! Suc i) k v)"
      using False i before by simp
    then show ?thesis by blast
  qed
qed

lemma dict_setitem_map_of:
  "map_of (entries (dict_setitem d k v)) = (map_of (entries d))(k \<mapsto> v)
   \<and> missing_hook (dict_setitem d k v) = missing_hook d"
  by (simp add: dict_setitem_def update_conv')

text \<open>
  C4, as amended. On a \<open>DeepChainMap\<close> whose layers are dicts or chain maps over dicts,
  \<open>set(k, v)\<close> scans the layers in order. If some layer contains \<open>k\<close>, it writes \<open>k\<close>
  with the value \<open>v\<close> into the first such layer \<open>i\<close> (no layer before \<open>i\<close> contains
  \<open>k\<close>): exactly one dict of layer \<open>i\<close>, the layer itself when it is a dict, gets \<open>k\<close>
  mapped to \<open>v\<close> and keeps its other keys, no other dict of the heap changes, and every
  layer that does not have the dict written among its dicts is unchanged; in particular,
  when layer \<open>i\<close> is a dict and \<open>i > 0\<close>, layer 0 is unchanged. If no layer contains
  \<open>k\<close>, the entry is created in layer 0, again in exactly one dict, and every layer that
  does not have that dict among its dicts is unchanged.
\<close>

theorem DeepChainMap_setitem_first_holder:
  assumes "cls self = DeepChainMap" and "maps_attr self \<noteq> []" and "valid_refs h self"
  shows "(contains h self k \<longrightarrow>
      (\<exists>i a h'. i < length (maps_attr self)
         \<and> (\<forall>j<i. \<not> mapping_contains h (maps_attr self ! j) k)
         \<and> mapping_contains h (maps_attr self ! i) k
         \<and> setitem h self k v = Inr h'
         \<and> a \<in> mapping_dicts (maps_attr self ! i)
         \<and> map_of (entries (h' ! a)) = (map_of (entries (h ! a)))(k \<mapsto> v)
         \<and> missing_hook (h' ! a) = missing_hook (h ! a)
         \<and> length h' = length h
         \<and> (\<forall>b. b \<noteq> a \<longrightarrow> h' ! b = h ! b)
         \<and> (\<forall>j<length (maps_attr self).
               a \<notin> mapping_dicts (maps_attr self ! j) \<longrightarrow>
               (\<forall>b\<in>mapping_dicts (maps_attr self ! j). h' ! b = h ! b))
         \<and> (0 < i \<and> maps_attr self ! i = DictRef a \<longrightarrow>
               (\<forall>b\<in>mapping_dicts (maps_attr self ! 0). h' ! b = h ! b))))
   \<and> (\<not> contains h self k \<longrightarrow>
      (\<exists>a h'. setitem h self k v = Inr h'
         \<and> a \<in> mapping_dicts (maps_attr self ! 0)
         \<and> map_of (entries (h' ! a)) = (map_of (entries (h ! a)))(k \<mapsto> v)
         \<and> missing_hook (h' ! a) = missing_hook (h ! a)
         \<and> length h' = length h
         \<and> (\<forall>b. b \<noteq> a \<longrightarrow> h' ! b = h ! b)
         \<and> (\<forall>j<length (maps_attr self).
               a \<notin> mapping_dicts (maps_attr self ! j) \<longrightarrow>
               (\<forall>b\<in>mapping_dicts (maps_attr self ! j). h' ! b = h ! b))))"
proof -
  obtain m0 rest where maps: "maps_attr self = m0 # rest"
    using assms(2) by (cases "maps_attr self") auto
  have set_eq: "setitem h self k v =
     (case DeepChainMap_setitem_loop h (maps_attr self) k v of
        Some r \<Rightarrow> r | None \<Rightarrow> mapping_setitem h (maps_attr self ! 0) k v)"
    using assms(1) maps by (simp add: setitem_def as_mapping_def split: option.split)
  have valid: "mapping_valid h (maps_attr self ! i)" if "i < length (maps_attr self)" for i
    using assms(3) that by (simp add: valid_refs_def list_all_length)
  have written: "\<exists>a h'. mapping_setitem h (maps_attr self ! i) k v = Inr h'
     \<and> a \<in> mapping_dicts (maps_attr self ! i)
     \<and> map_of (entries (h' ! a)) = (map_of (entries (h ! a)))(k \<mapsto> v)
     \<and> missing_hook (h' ! a) = missing_hook (h ! a)
     \<and> length h' = length h
     \<and> (\<forall>b. b \<noteq> a \<longrightarrow> h' ! b = h ! b)
     \<and> (\<forall>j<length (maps_attr self).
           a \<notin> mapping_dicts (maps_attr self ! j) \<longrightarrow>
           (\<forall>b\<in>mapping_dicts (maps_attr self ! j). h' ! b = h ! b))"
    if "i < length (maps_attr self)" for i
  proof -
    from mapping_setitem_writes_one(1) [OF valid [OF that], of k v] obtain a where
      a: "a \<in> mapping_dicts (maps_attr self ! i)" "a < length h"
      and res: "mapping_setitem h (maps_attr self ! i) k v = Inr (h[a := dict_setitem (h ! a) k v])"
      by blast
    let ?d = "dict_setitem (h ! a) k v"
    have "map_of (entries (h[a := ?d] ! a)) = (map_of (entries (h ! a)))(k \<mapsto> v)"
      "missing_hook (h[a := ?d] ! a) = missing_hook (h ! a)"
      using a(2) by (simp_all add: dict_setitem_map_of)
    with a res heap_update_frame [of h a ?d "maps_attr self"] show ?thesis
      by blast
  qed
  show ?thesis
  proof (cases "contains h self k")
    case True
    then have "list_ex (\<lambda>m. mapping_contains h m k) (maps_attr self)"
      by (simp add: contains_def as_mapping_def)
    from DeepChainMap_setitem_loop_first [OF this, of v] obtain i where
      i: "i < length (maps_attr self)"
      and before: "\<forall>j<i. \<not> mapping_contains h (maps_attr self ! j) k"
      and holds: "mapping_contains h (maps_attr self ! i) k"
      and loop: "DeepChainMap_setitem_loop h (maps_attr self) k v
          = Some (mapping_setitem h (maps_attr self ! i) k v)"
      by blast
    from written [OF i] obtain a h' where w:
      "mapping_setitem h (maps_attr self ! i) k v = Inr h'"
      "a \<in> mapping_dicts (maps_attr self ! i)"
      "map_of (entries (h' ! a)) = (map_of (entries (h ! a)))(k \<mapsto> v)"
      "missing_hook (h' ! a) = missing_hook (h ! a)"
      "length h' = length h"
      "\<forall>b. b \<noteq> a \<longrightarrow> h' ! b = h ! b"
      "\<forall>j<length (maps_attr self).
           a \<notin> mapping_dicts (maps_attr self ! j) \<longrightarrow>
           (\<forall>b\<in>mapping_dicts (maps_attr self ! j). h' ! b = h ! b)"
      by blast
    have res: "setitem h self k v = Inr h'"
      using set_eq loop w(1) by simp
    have zero: "0 < i \<and> maps_attr self ! i = DictRef a \<longrightarrow>
        (\<forall>b\<in>mapping_dicts (maps_attr self ! 0). h' ! b = h ! b)"
    proof
      assume pos: "0 < i \<and> maps_attr self ! i = DictRef a"
      with holds have "dict_contains (h ! a) k" by simp
      moreover from pos before have "\<not> mapping_contains h (maps_attr self ! 0) k" by simp
      ultimately have "a \<notin> mapping_dicts (maps_attr self ! 0)"
        using dict_contains_mapping_contains [of a "maps_attr self ! 0" h k] by blast
      moreover have "0 < length (maps_attr self)" using assms(2) by simp
      ultimately show "\<forall>b\<in>mapping_dicts (maps_attr self ! 0). h' ! b = h ! b"
        using w(7) by blast
    qed
    have "i < length (maps_attr self)
         \<and> (\<forall>j<i. \<not> mapping_contains h (maps_attr self ! j) k)
         \<and> mapping_contains h (maps_attr self ! i) k
         \<and> setitem h self k v = Inr h'
         \<and> a \<in> mapping_dicts (maps_attr self ! i)
         \<and> map_of (entries (h' ! a)) = (map_of (entries (h ! a)))(k \<mapsto> v)
         \<and> missing_hook (h' ! a) = missing_hook (h ! a)
         \<and> length h' = length h
         \<and> (\<forall>b. b \<noteq> a \<longrightarrow> h' ! b = h ! b)
         \<and> (\<forall>j<length (maps_attr self).
               a \<notin> mapping_dicts (maps_attr self ! j) \<longrightarrow>
               (\<forall>b\<in>mapping_dicts (maps_attr self ! j). h' ! b = h ! b))
         \<and> (0 < i \<and> maps_attr self ! i = DictRef a \<longrightarrow>
               (\<forall>b\<in>mapping_dicts (maps_attr self ! 0). h' ! b = h ! b))"
      using i before holds res w(2-7) zero by blast
    then show ?thesis using True by blast
  next
    case False
    then have "DeepChainMap_setitem_loop h (maps_attr self) k v = None"
      by (simp add: contains_def as_mapping_def DeepChainMap_setitem_loop_none)
    then have res: "setitem h self k v = mapping_setitem h (maps_attr self ! 0) k v"
      using set_eq by simp
    have "0 < length (maps_attr self)" using assms(2) by simp
    from written [OF this] res False show ?thesis by simp
  qed
qed

theorem DeepChainMap_setitem_first_holder_witness:
  "setitem [DictObj None [(''a'', 1::int)], DictObj None [(''b'', 2)]]
      \<lparr>cls = DeepChainMap, maps_attr = [DictRef 0, DictRef 1]\<rparr> ''b'' 7
     = Inr [DictObj None [(''a'', 1)], DictObj None [(''b'', 7)]]
   \<and> setitem [DictObj None [(''a'', 1::int)], DictObj None [(''b'', 2)]]
      \<lparr>cls = DeepChainMap, maps_attr = [DictRef 0, DictRef 1]\<rparr> ''c'' 7
     = Inr [DictObj None [(''a'', 1), (''c'', 7)], DictObj None [(''b'', 2)]]
   \<and> valid_refs [DictObj None [(''a'', 1::int)], DictObj None [(''b'', 2)]]
      \<lparr>cls = DeepChainMap, maps_attr = [DictRef 0, DictRef 1]\<rparr>"
  using DeepChainMap_setitem_first_holder
    [of "\<lparr>cls = DeepChainMap, maps_attr = [DictRef 0, DictRef 1]\<rparr>"
        "[DictObj None [(''a'', 1::int)], DictObj None [(''b'', 2)]]" "''b''" 7]
  by (simp add: setitem_def as_mapping_def dict_contains_def dict_setitem_def valid_refs_def)

text \<open>
  C4 as it was stated fails when another layer shares the dict written: for
  \<open>a = {"a": 1}\<close>, \<open>b = {"b": 2}\<close> and \<open>DeepChainMap(a, b, ChainMap(b))\<close>, \<open>c["b"] = 7\<close>
  writes into layer 1, the first layer containing \<open>"b"\<close>, and layer 2, another object,
  returns 7 for \<open>"b"\<close> afterwards where it returned 2.
\<close>

theorem DeepChainMap_setitem_shared_dict_counterexample:
  "setitem [DictObj None [(''a'', 1::int)], DictObj None [(''b'', 2)]]
      \<lparr>cls = DeepChainMap,
        maps_attr = [DictRef 0, DictRef 1, ChainRef ChainMap [DictRef 1]]\<rparr> ''b'' 7
     = Inr [DictObj None [(''a'', 1)], DictObj None [(''b'', 7)]]
   \<and> \<not> mapping_contains [DictObj None [(''a'', 1::int)], DictObj None [(''b'', 2)]]
        (DictRef 0) ''b''
   \<and> mapping_contains [DictObj None [(''a'', 1::int)], DictObj None [(''b'', 2)]]
        (DictRef 1) ''b''
   \<and> mapping_getitem [DictObj None [(''a'', 1::int)], DictObj None [(''b'', 2)]]
        (ChainRef ChainMap [DictRef 1]) ''b'' = Inr 2
   \<and> mapping_getitem [DictObj None [(''a'', 1::int)], DictObj None [(''b'', 7)]]
        (ChainRef ChainMap [DictRef 1]) ''b'' = Inr 7"
  by (simp add: setitem_def as_mapping_def dict_contains_def dict_setitem_def dict_getitem_def)

subsection \<open>\<open>popitem\<close>\<close>

lemma dict_popitem_some:
  assumes "entries d \<noteq> []"
  shows "\<exists>k v xs ys. dict_popitem n d = Inr ((k, v), DictObj (missing_hook d) (xs @ ys))
     \<and> entries d = xs @ (k, v) # ys"
proof -
  let ?i = "n mod length (entries d)"
  have i: "?i < length (entries d)" using assms by simp
  obtain k v where kv: "entries d ! ?i = (k, v)" by (cases "entries d ! ?i")
  have "entries d = take ?i (entries d) @ (k, v) # drop (Suc ?i) (entries d)"
    using i kv by (metis id_take_nth_drop)
  moreover have "dict_popitem n d
      = Inr ((k, v), DictObj (missing_hook d) (take ?i (entries d) @ drop (Suc ?i) (entries d)))"
    using assms kv by (simp add: dict_popitem_def Let_def)
  ultimately show ?thesis by blast
qed

lemma map_of_remove_entry:
  assumes "distinct (map fst (xs @ (k, v) # ys))"
  shows "map_of (xs @ (k, v) # ys) k = Some v
     \<and> map_of (xs @ ys) = (map_of (xs @ (k, v) # ys))(k := None)"
proof -
  have kx: "k \<notin> fst ` set xs" and ky: "k \<notin> fst ` set ys"
    using assms by auto
  have nx: "map_of xs k = None" using kx by (simp add: map_of_eq_None_iff)
  have ny: "map_of ys k = None" using ky by (simp add: map_of_eq_None_iff)
  have "map_of (xs @ (k, v) # ys) k = Some v"
    using nx by (simp add: map_add_def)
  moreover have "map_of (xs @ ys) x = ((map_of (xs @ (k, v) # ys))(k := None)) x" for x
    using nx ny by (simp add: map_add_def split: option.split)
  ultimately show ?thesis by blast
qed

text \<open>
  C8, as amended. On an instance whose layer 0 is a dict, \<open>popItem()\<close> fails exactly
  when layer 0 is empty, whatever the other layers hold, and the failure is
  \<open>KeyError("No keys found in the first mapping.")\<close>, the spec's \<open>EmptyMapping\<close>. When
  layer 0 is not empty, it returns an entry \<open>(k, v)\<close> of layer 0 and layer 0 is left
  without that entry, whichever entry the dict chooses (\<open>n\<close>); where the keys of layer 0
  are distinct, as a dict's are, layer 0 mapped \<open>k\<close> to \<open>v\<close> and afterwards holds every
  other key with its value and \<open>k\<close> no more.
\<close>

theorem popitem_layer0:
  assumes "maps_attr self = DictRef a # rest" and "a < length h"
  shows "((\<exists>e. popitem n h self = Inl e) \<longleftrightarrow> entries (h ! a) = [])
     \<and> (popitem n h self = Inl KeyError_no_keys \<longleftrightarrow> entries (h ! a) = [])
     \<and> (entries (h ! a) = [] \<longleftrightarrow> mapping_keys h (maps_attr self ! 0) = {})
     \<and> (entries (h ! a) \<noteq> [] \<longrightarrow>
          (\<exists>k v xs ys h'. popitem n h self = Inr ((k, v), h')
             \<and> entries (h ! a) = xs @ (k, v) # ys
             \<and> entries (h' ! a) = xs @ ys
             \<and> missing_hook (h' ! a) = missing_hook (h ! a)
             \<and> length h' = length h
             \<and> (\<forall>b. b \<noteq> a \<longrightarrow> h' ! b = h ! b)
             \<and> (distinct (dict_keys (h ! a)) \<longrightarrow>
                  map_of (entries (h ! a)) k = Some v
                  \<and> map_of (entries (h' ! a)) = (map_of (entries (h ! a)))(k := None))))"
proof (cases "entries (h ! a) = []")
  case True
  then have "popitem n h self = Inl KeyError_no_keys"
    using assms(1) by (simp add: popitem_def as_mapping_def dict_popitem_def)
  with True assms(1) show ?thesis by (simp add: dict_keys_def)
next
  case False
  from dict_popitem_some [OF False, of n] obtain k v xs ys where
    pop: "dict_popitem n (h ! a) = Inr ((k, v), DictObj (missing_hook (h ! a)) (xs @ ys))"
    and split: "entries (h ! a) = xs @ (k, v) # ys"
    by blast
  let ?d = "DictObj (missing_hook (h ! a)) (xs @ ys)"
  have res: "popitem n h self = Inr ((k, v), h[a := ?d])"
    using assms(1) pop by (simp add: popitem_def as_mapping_def)
  have after: "entries (h[a := ?d] ! a) = xs @ ys"
    "missing_hook (h[a := ?d] ! a) = missing_hook (h ! a)"
    using assms(2) by simp_all
  have maps: "distinct (dict_keys (h ! a)) \<longrightarrow>
      map_of (entries (h ! a)) k = Some v
      \<and> map_of (entries (h[a := ?d] ! a)) = (map_of (entries (h ! a)))(k := None)"
    using map_of_remove_entry [of xs k v ys] split after by (simp add: dict_keys_def)
  have "popitem n h self = Inr ((k, v), h[a := ?d])
     \<and> entries (h ! a) = xs @ (k, v) # ys
     \<and> entries (h[a := ?d] ! a) = xs @ ys
     \<and> missing_hook (h[a := ?d] ! a) = missing_hook (h ! a)
     \<and> length (h[a := ?d]) = length h
     \<and> (\<forall>b. b \<noteq> a \<longrightarrow> h[a := ?d] ! b = h ! b)
     \<and> (distinct (dict_keys (h ! a)) \<longrightarrow>
          map_of (entries (h ! a)) k = Some v
          \<and> map_of (entries (h[a := ?d] ! a)) = (map_of (entries (h ! a)))(k := None))"
    using res split after maps by simp
  then have "\<exists>k v xs ys h'. popitem n h self = Inr ((k, v), h')
     \<and> entries (h ! a) = xs @ (k, v) # ys
     \<and> entries (h' ! a) = xs @ ys
     \<and> missing_hook (h' ! a) = missing_hook (h ! a)
     \<and> length h' = length h
     \<and> (\<forall>b. b \<noteq> a \<longrightarrow> h' ! b = h ! b)
     \<and> (distinct (dict_keys (h ! a)) \<longrightarrow>
          map_of (entries (h ! a)) k = Some v
          \<and> map_of (entries (h' ! a)) = (map_of (entries (h ! a)))(k := None))"
    by blast
  moreover have "popitem n h self \<noteq> Inl KeyError_no_keys" "\<not> (\<exists>e. popitem n h self = Inl e)"
    using res by simp_all
  moreover have "mapping_keys h (maps_attr self ! 0) \<noteq> {}"
    using False assms(1) by (simp add: dict_keys_def)
  ultimately show ?thesis using False by simp
qed

theorem popitem_layer0_witness:
  "popitem 0 [DictObj None [], DictObj None [(''b'', 2::int)]]
      \<lparr>cls = ChainMap, maps_attr = [DictRef 0, DictRef 1]\<rparr> = Inl KeyError_no_keys
   \<and> mapping_keys [DictObj None [], DictObj None [(''b'', 2::int)]] (DictRef 1) \<noteq> {}
   \<and> popitem 1 [DictObj None [(''a'', 1::int), (''c'', 3)], DictObj None [(''b'', 2)]]
      \<lparr>cls = ChainMap, maps_attr = [DictRef 0, DictRef 1]\<rparr>
       = Inr ((''c'', 3), [DictObj None [(''a'', 1)], DictObj None [(''b'', 2)]])"
  using popitem_layer0
    [of "\<lparr>cls = ChainMap, maps_attr = [DictRef 0, DictRef 1]\<rparr>" 0 "[DictRef 1]"
        "[DictObj None [], DictObj None [(''b'', 2::int)]]" 0]
  by (simp add: popitem_def as_mapping_def dict_popitem_def dict_keys_def Let_def)

text \<open>
  C8 as it was stated fails when layer 0 is itself a chain map: \<open>popitem\<close> is passed on
  to its first map. For \<open>ChainMap(ChainMap({}, {"b": 2}))\<close>, layer 0 is not empty, it
  has the key \<open>"b"\<close>, and \<open>popitem()\<close> raises.
\<close>

theorem popitem_chain_layer0_counterexample:
  "popitem 0 [DictObj None [], DictObj None [(''b'', 2::int)]]
      \<lparr>cls = ChainMap, maps_attr = [ChainRef ChainMap [DictRef 0, DictRef 1]]\<rparr>
     = Inl KeyError_no_keys
   \<and> mapping_keys [DictObj None [], DictObj None [(''b'', 2::int)]]
        (maps_attr \<lparr>cls = ChainMap, maps_attr = [ChainRef ChainMap [DictRef 0, DictRef 1]]\<rparr> ! 0)
      = {''b''}"
  by (simp add: popitem_def as_mapping_def dict_popitem_def dict_keys_def)

subsection \<open>\<open>clear\<close>\<close>

text \<open>
  C9. \<open>clear()\<close> should remove all entries from layer 0 and leave every layer
  \<open>1..n-1\<close> unchanged, as the method's docstring says (\<open>Clear maps[0], leaving maps[1:]
  in tact\<close>). \<open>clear\<close> calls \<open>self.maps[0].clear()\<close>, which empties the object that layer
  0 refers to: for \<open>d = {"a": 1}\<close> and \<open>ChainMap(d, d)\<close> the heap's only dict is empty
  afterwards, and layer 1, which had the key \<open>"a"\<close>, has no key.
\<close>

theorem clear_empties_aliased_layer:
  "clear [DictObj None [(''a'', 1::int)]] \<lparr>cls = ChainMap, maps_attr = [DictRef 0, DictRef 0]\<rparr>
     = Inr [DictObj None []]
   \<and> mapping_keys [DictObj None [(''a'', 1::int)]]
        (maps_attr \<lparr>cls = ChainMap, maps_attr = [DictRef 0, DictRef 0]\<rparr> ! 1) = {''a''}
   \<and> mapping_keys [DictObj None ([]::(string \<times> int) list)]
        (maps_attr \<lparr>cls = ChainMap, maps_attr = [DictRef 0, DictRef 0]\<rparr> ! 1) = {}"
  by (simp add: clear_def as_mapping_def dict_clear_def dict_keys_def)

text \<open>
  What \<open>clear\<close> does when layer 0 is a dict: that dict is emptied and no other dict of the
  heap changes.
\<close>

lemma clear_dict_layer0:
  assumes "maps_attr self = DictRef a # rest" and "a < length h"
  shows "\<exists>h'. clear h self = Inr h'
     \<and> entries (h' ! a) = []
     \<and> length h' = length h
     \<and> (\<forall>b. b \<noteq> a \<longrightarrow> h' ! b = h ! b)"
  using assms by (simp add: clear_def as_mapping_def dict_clear_def)

end
